theory Spec2Isabelle
  imports Main "HOL-Library.AList" "HOL-Library.Multiset"
begin

section \<open>Data model\<close>

text \<open>
  The ticket processor works on pandas DataFrames. A cell of a DataFrame is a text, a
  timestamp, or one of the two missing-value markers of pandas: \<open>NaN\<close> (a missing
  entry of a text column) and \<open>NaT\<close> (a missing timestamp). A timestamp is an instant
  in nanoseconds since the epoch together with its timezone-awareness: pandas keeps
  tz-naive and tz-aware timestamps apart and refuses to order one against the other.
  A row maps column names to cells; a column that a row does not mention reads as
  \<open>NaN\<close>, as pandas fills it. A DataFrame carries its column index beside its rows, so
  a frame with no rows still has its columns.
\<close>

datatype tz = Naive | Aware

type_synonym stamp = "tz \<times> int"

datatype cell = Str string | Date stamp | NaN | NaT

type_synonym row = "(string \<times> cell) list"

record dataframe =
  columns :: "string list"
  rows :: "row list"

text \<open>A Python dictionary keeps insertion order, and an assignment to a key that is
  already there keeps its place: this is \<open>AList.update\<close> on an association list.\<close>

type_synonym ('k, 'v) dict = "('k \<times> 'v) list"

datatype exn = KeyError | NameError | AttributeError | TypeError


definition cell_at :: "row \<Rightarrow> string \<Rightarrow> cell" where
  "cell_at r c = (case map_of r c of Some v \<Rightarrow> v | None \<Rightarrow> NaN)"

text \<open>\<open>df[c]\<close> without a guard: \<open>KeyError\<close> when the column is not in the index.\<close>

definition series :: "dataframe \<Rightarrow> string \<Rightarrow> cell list" where
  "series df c = map (\<lambda>r. cell_at r c) (rows df)"

definition get_column :: "dataframe \<Rightarrow> string \<Rightarrow> exn + cell list" where
  "get_column df c = (if c \<in> set (columns df) then Inr (series df c) else Inl KeyError)"

text \<open>
  The model carries no dtype: a column is read as pandas infers it from its cells. The
  timezone of a column of timestamps is the one its timestamps share; a column
  without any timestamp is tz-naive (as \<open>to_datetime\<close> makes it), and a column that
  holds timestamps of both kinds has none (pandas keeps it as a column of objects).
  A column is a datetime64 column when all its cells are timestamps or \<open>NaT\<close> and it
  has a timezone.
\<close>

fun is_aware :: "cell \<Rightarrow> bool" where
  "is_aware (Date (Aware, t)) = True"
| "is_aware x = False"

fun is_naive :: "cell \<Rightarrow> bool" where
  "is_naive (Date (Naive, t)) = True"
| "is_naive x = False"

definition column_tz :: "cell list \<Rightarrow> tz option" where
  "column_tz s =
     (if list_ex is_aware s then (if list_ex is_naive s then None else Some Aware)
      else Some Naive)"

fun is_datetime_cell :: "cell \<Rightarrow> bool" where
  "is_datetime_cell (Date st) = True"
| "is_datetime_cell NaT = True"
| "is_datetime_cell x = False"

definition is_datetime64 :: "cell list \<Rightarrow> bool" where
  "is_datetime64 s = (list_all is_datetime_cell s \<and> column_tz s \<noteq> None)"

text \<open>Elementwise \<open>==\<close> of two values: a missing value equals nothing, not even
  itself; a text never equals a timestamp; a tz-naive timestamp never equals a
  tz-aware one.\<close>

definition cell_eq :: "cell \<Rightarrow> cell \<Rightarrow> bool" where
  "cell_eq x v = (x = v \<and> v \<noteq> NaN \<and> v \<noteq> NaT)"

text \<open>
  \<open>column == value\<close>. Against a datetime64 column pandas first reads a text scalar as
  a timestamp (\<open>Timestamp(value)\<close>, the parameter \<open>scalar\<close>) and compares with that; a
  text that is not a date equals no entry. Against any other column, and for any
  other scalar, the comparison is elementwise.
\<close>

definition scalar_for :: "(string \<Rightarrow> stamp option) \<Rightarrow> cell list \<Rightarrow> cell \<Rightarrow> cell" where
  "scalar_for scalar s v =
     (case v of
        Str txt \<Rightarrow>
          if is_datetime64 s
          then (case scalar txt of Some st \<Rightarrow> Date st | None \<Rightarrow> NaN)
          else v
      | _ \<Rightarrow> v)"

definition compares_equal :: "(string \<Rightarrow> stamp option) \<Rightarrow> cell list \<Rightarrow> cell \<Rightarrow> cell \<Rightarrow> bool" where
  "compares_equal scalar s x v = cell_eq x (scalar_for scalar s v)"

definition mask_eq :: "(string \<Rightarrow> stamp option) \<Rightarrow> cell list \<Rightarrow> cell \<Rightarrow> bool list" where
  "mask_eq scalar s v = map (\<lambda>x. compares_equal scalar s x v) s"

text \<open>\<open>mask.sum()\<close>: the number of \<open>True\<close> entries.\<close>

definition mask_sum :: "bool list \<Rightarrow> int" where
  "mask_sum m = int (length (filter (\<lambda>b. b) m))"

text \<open>\<open>df[mask]\<close>: the rows at the \<open>True\<close> positions, in order, same columns.\<close>

definition select_rows :: "dataframe \<Rightarrow> bool list \<Rightarrow> dataframe" where
  "select_rows df m = df\<lparr>rows := map fst (filter snd (zip (rows df) m))\<rparr>"

text \<open>\<open>str(x)\<close> as an f-string applies it. The text of a timestamp is left to the
  parameter \<open>ts\<close> (pandas formats it).\<close>

fun py_str :: "(stamp \<Rightarrow> string) \<Rightarrow> cell \<Rightarrow> string" where
  "py_str ts (Str s) = s"
| "py_str ts (Date st) = ts st"
| "py_str ts NaN = ''nan''"
| "py_str ts NaT = ''NaT''"

section \<open>Counting operations\<close>

subsection \<open>\<open>total_ticket_received_count\<close>\<close>

definition flat_key :: "(stamp \<Rightarrow> string) \<Rightarrow> cell \<Rightarrow> cell \<Rightarrow> string" where
  "flat_key ts key v = py_str ts key @ ''_'' @ py_str ts v"

fun total_ticket_received_count_values ::
  "(string \<Rightarrow> stamp option) \<Rightarrow> (stamp \<Rightarrow> string) \<Rightarrow> cell \<Rightarrow> dataframe \<Rightarrow> string \<Rightarrow> cell list \<Rightarrow> (string, int) dict
     \<Rightarrow> (string, int) dict" where
  "total_ticket_received_count_values scalar ts key df column_name [] all_counts = all_counts"
| "total_ticket_received_count_values scalar ts key df column_name (v # vs) all_counts =
     (let count = mask_sum (mask_eq scalar (series df column_name) v)
      in total_ticket_received_count_values scalar ts key df column_name vs
           (AList.update (flat_key ts key v) (if count > 0 then count else 0) all_counts))"

fun total_ticket_received_count_keys ::
  "(string \<Rightarrow> stamp option) \<Rightarrow> (stamp \<Rightarrow> string) \<Rightarrow> (cell, dataframe) dict \<Rightarrow> cell list \<Rightarrow> cell list \<Rightarrow> string
     \<Rightarrow> (string, int) dict \<Rightarrow> (string, int) dict" where
  "total_ticket_received_count_keys scalar ts d [] comparison_values column_name all_counts = all_counts"
| "total_ticket_received_count_keys scalar ts d (key # ks) comparison_values column_name all_counts =
     (case map_of d key of
        None \<Rightarrow> total_ticket_received_count_keys scalar ts d ks comparison_values column_name all_counts
      | Some df \<Rightarrow>
          if column_name \<notin> set (columns df)
          then total_ticket_received_count_keys scalar ts d ks comparison_values column_name all_counts
          else total_ticket_received_count_keys scalar ts d ks comparison_values column_name
                 (total_ticket_received_count_values scalar ts key df column_name comparison_values
                    all_counts))"

definition total_ticket_received_count ::
  "(string \<Rightarrow> stamp option) \<Rightarrow> (stamp \<Rightarrow> string) \<Rightarrow> (cell, dataframe) dict \<Rightarrow> cell list \<Rightarrow> cell list \<Rightarrow> string
     \<Rightarrow> (string, int) dict" where
  "total_ticket_received_count scalar ts splitted_df_dict splitted_df_key_list comparison_values
     column_name =
     total_ticket_received_count_keys scalar ts splitted_df_dict splitted_df_key_list
       comparison_values column_name []"

subsection \<open>\<open>count_tickets_for_unique_modes\<close>\<close>

definition status_key :: "(stamp \<Rightarrow> string) \<Rightarrow> cell \<Rightarrow> cell \<Rightarrow> cell \<Rightarrow> string" where
  "status_key ts status_value key v =
     ''total_'' @ py_str ts status_value @ ''_ticket_'' @ py_str ts key @ ''_'' @ py_str ts v"

fun count_tickets_for_unique_modes_values ::
  "(string \<Rightarrow> stamp option) \<Rightarrow> (stamp \<Rightarrow> string) \<Rightarrow> cell \<Rightarrow> cell \<Rightarrow> dataframe \<Rightarrow> cell list \<Rightarrow> (string, int) dict
     \<Rightarrow> exn + (string, int) dict" where
  "count_tickets_for_unique_modes_values scalar ts status_value key filtered_df [] all_counts =
     Inr all_counts"
| "count_tickets_for_unique_modes_values scalar ts status_value key filtered_df (v # vs) all_counts =
     (case get_column filtered_df ''Mode'' of
        Inl e \<Rightarrow> Inl e
      | Inr modes \<Rightarrow>
          (let count = mask_sum (mask_eq scalar modes v)
           in count_tickets_for_unique_modes_values scalar ts status_value key filtered_df vs
                (AList.update (status_key ts status_value key v)
                   (if count > 0 then count else 0) all_counts)))"

fun count_tickets_for_unique_modes_keys ::
  "(string \<Rightarrow> stamp option) \<Rightarrow> (stamp \<Rightarrow> string) \<Rightarrow> (cell, dataframe) dict \<Rightarrow> cell list \<Rightarrow> cell list \<Rightarrow> string \<Rightarrow> cell
     \<Rightarrow> (string, int) dict \<Rightarrow> exn + (string, int) dict" where
  "count_tickets_for_unique_modes_keys scalar ts d [] mode_list status_column status_value all_counts =
     Inr all_counts"
| "count_tickets_for_unique_modes_keys scalar ts d (key # ks) mode_list status_column status_value
     all_counts =
     (case map_of d key of
        None \<Rightarrow>
          count_tickets_for_unique_modes_keys scalar ts d ks mode_list status_column status_value
            all_counts
      | Some df \<Rightarrow>
          (case get_column df status_column of
             Inl e \<Rightarrow> Inl e
           | Inr statuses \<Rightarrow>
               (let filtered_df = select_rows df (mask_eq scalar statuses status_value)
                in case count_tickets_for_unique_modes_values scalar ts status_value key filtered_df
                          mode_list all_counts of
                     Inl e \<Rightarrow> Inl e
                   | Inr all_counts' \<Rightarrow>
                       count_tickets_for_unique_modes_keys scalar ts d ks mode_list status_column
                         status_value all_counts')))"

definition count_tickets_for_unique_modes ::
  "(string \<Rightarrow> stamp option) \<Rightarrow> (stamp \<Rightarrow> string) \<Rightarrow> (cell, dataframe) dict \<Rightarrow> cell list \<Rightarrow> cell list \<Rightarrow> string \<Rightarrow> cell
     \<Rightarrow> exn + (string, int) dict" where
  "count_tickets_for_unique_modes scalar ts splitted_df_dict splitted_df_key_list mode_list
     status_column status_value =
     count_tickets_for_unique_modes_keys scalar ts splitted_df_dict splitted_df_key_list mode_list
       status_column status_value []"

subsection \<open>\<open>total_ticket_received_count_modewise\<close>\<close>

text \<open>\<open>{value: {} for value in comparison_values}\<close>: one fresh inner dictionary per value.\<close>

definition init_mode_counts :: "cell list \<Rightarrow> (cell, (cell, int) dict) dict" where
  "init_mode_counts comparison_values =
     fold (\<lambda>v acc. AList.update v [] acc) comparison_values []"

text \<open>\<open>mode_counts[value][key] = n\<close>: the outer lookup raises \<open>KeyError\<close> on a missing
  value, the inner assignment inserts or overwrites.\<close>

definition set_nested ::
  "(cell, (cell, int) dict) dict \<Rightarrow> cell \<Rightarrow> cell \<Rightarrow> int \<Rightarrow> exn + (cell, (cell, int) dict) dict" where
  "set_nested mode_counts v key n =
     (case map_of mode_counts v of
        None \<Rightarrow> Inl KeyError
      | Some inner \<Rightarrow> Inr (AList.update v (AList.update key n inner) mode_counts))"

fun total_ticket_received_count_modewise_values ::
  "(string \<Rightarrow> stamp option) \<Rightarrow> cell \<Rightarrow> dataframe \<Rightarrow> string \<Rightarrow> cell list \<Rightarrow> (cell, (cell, int) dict) dict
     \<Rightarrow> exn + (cell, (cell, int) dict) dict" where
  "total_ticket_received_count_modewise_values scalar key df column_name [] mode_counts =
     Inr mode_counts"
| "total_ticket_received_count_modewise_values scalar key df column_name (v # vs) mode_counts =
     (let count = mask_sum (mask_eq scalar (series df column_name) v)
      in case set_nested mode_counts v key count of
           Inl e \<Rightarrow> Inl e
         | Inr mode_counts1 \<Rightarrow>
             (case (if count = 0 then set_nested mode_counts1 v key 0 else Inr mode_counts1) of
                Inl e \<Rightarrow> Inl e
              | Inr mode_counts2 \<Rightarrow>
                  total_ticket_received_count_modewise_values scalar key df column_name vs
                    mode_counts2))"

fun total_ticket_received_count_modewise_keys ::
  "(string \<Rightarrow> stamp option) \<Rightarrow> (cell, dataframe) dict \<Rightarrow> cell list \<Rightarrow> cell list \<Rightarrow> string
     \<Rightarrow> (cell, (cell, int) dict) dict \<Rightarrow> exn + (cell, (cell, int) dict) dict" where
  "total_ticket_received_count_modewise_keys scalar d [] comparison_values column_name mode_counts =
     Inr mode_counts"
| "total_ticket_received_count_modewise_keys scalar d (key # ks) comparison_values column_name
     mode_counts =
     (case map_of d key of
        None \<Rightarrow>
          total_ticket_received_count_modewise_keys scalar d ks comparison_values column_name
            mode_counts
      | Some df \<Rightarrow>
          if column_name \<notin> set (columns df)
          then total_ticket_received_count_modewise_keys scalar d ks comparison_values column_name
                 mode_counts
          else (case total_ticket_received_count_modewise_values scalar key df column_name
                       comparison_values mode_counts of
                  Inl e \<Rightarrow> Inl e
                | Inr mode_counts' \<Rightarrow>
                    total_ticket_received_count_modewise_keys scalar d ks comparison_values
                      column_name mode_counts'))"

definition total_ticket_received_count_modewise ::
  "(string \<Rightarrow> stamp option) \<Rightarrow> (cell, dataframe) dict \<Rightarrow> cell list \<Rightarrow> cell list \<Rightarrow> string
     \<Rightarrow> exn + (cell, (cell, int) dict) dict" where
  "total_ticket_received_count_modewise scalar splitted_df_dict splitted_df_key_list comparison_values
     column_name =
     total_ticket_received_count_modewise_keys scalar splitted_df_dict splitted_df_key_list
       comparison_values column_name (init_mode_counts comparison_values)"

subsection \<open>\<open>count_bot_wise_status_tickets\<close>\<close>

text \<open>\<open>sum(... for mode in mode_list)\<close>: the generator reads \<open>filtered_df['Mode']\<close> once per
  mode, and \<open>sum\<close> starts from 0.\<close>

fun sum_mode_counts :: "(string \<Rightarrow> stamp option) \<Rightarrow> dataframe \<Rightarrow> cell list \<Rightarrow> int \<Rightarrow> exn + int" where
  "sum_mode_counts scalar filtered_df [] acc = Inr acc"
| "sum_mode_counts scalar filtered_df (mode # ms) acc =
     (case get_column filtered_df ''Mode'' of
        Inl e \<Rightarrow> Inl e
      | Inr modes \<Rightarrow> sum_mode_counts scalar filtered_df ms (acc + mask_sum (mask_eq scalar modes mode)))"

fun count_bot_wise_status_tickets_keys ::
  "(string \<Rightarrow> stamp option) \<Rightarrow> (cell, dataframe) dict \<Rightarrow> cell list \<Rightarrow> cell list \<Rightarrow> string \<Rightarrow> cell \<Rightarrow> (cell, int) dict
     \<Rightarrow> exn + (cell, int) dict" where
  "count_bot_wise_status_tickets_keys scalar d [] mode_list status_column status_value
     total_ticket_counts = Inr total_ticket_counts"
| "count_bot_wise_status_tickets_keys scalar d (key # ks) mode_list status_column status_value
     total_ticket_counts =
     (case map_of d key of
        None \<Rightarrow>
          count_bot_wise_status_tickets_keys scalar d ks mode_list status_column status_value
            total_ticket_counts
      | Some df \<Rightarrow>
          (case get_column df status_column of
             Inl e \<Rightarrow> Inl e
           | Inr statuses \<Rightarrow>
               (let filtered_df = select_rows df (mask_eq scalar statuses status_value)
                in case sum_mode_counts scalar filtered_df mode_list 0 of
                     Inl e \<Rightarrow> Inl e
                   | Inr total_count \<Rightarrow>
                       count_bot_wise_status_tickets_keys scalar d ks mode_list status_column
                         status_value (AList.update key total_count total_ticket_counts))))"

definition count_bot_wise_status_tickets ::
  "(string \<Rightarrow> stamp option) \<Rightarrow> (cell, dataframe) dict \<Rightarrow> cell list \<Rightarrow> cell list \<Rightarrow> string \<Rightarrow> cell
     \<Rightarrow> exn + (cell, int) dict" where
  "count_bot_wise_status_tickets scalar splitted_df_dict splitted_df_key_list mode_list status_column
     status_value =
     count_bot_wise_status_tickets_keys scalar splitted_df_dict splitted_df_key_list mode_list
       status_column status_value []"

subsection \<open>\<open>problem_reported_count_botwise\<close>\<close>

text \<open>
  Python's \<open>str.lower\<close> and \<open>str.strip\<close>, on characters read as code points below 256:
  the capital letters of ASCII and of Latin-1 move up by 32, and the white space that
  \<open>strip()\<close> removes is TAB to CR, FS to US, the blank, NEL and the no-break space.
\<close>

definition lower_char :: "char \<Rightarrow> char" where
  "lower_char c =
     (let n = (of_char c :: nat)
      in if (65 \<le> n \<and> n \<le> 90) \<or> (192 \<le> n \<and> n \<le> 222 \<and> n \<noteq> 215)
         then char_of (n + 32) else c)"

definition py_lower :: "string \<Rightarrow> string" where
  "py_lower s = map lower_char s"

definition is_space :: "char \<Rightarrow> bool" where
  "is_space c =
     (let n = (of_char c :: nat)
      in (9 \<le> n \<and> n \<le> 13) \<or> (28 \<le> n \<and> n \<le> 32) \<or> n = 133 \<or> n = 160)"

definition py_strip :: "string \<Rightarrow> string" where
  "py_strip s = rev (dropWhile is_space (rev (dropWhile is_space s)))"

text \<open>\<open>.str.lower()\<close> and \<open>.str.strip()\<close> on a column: a text is transformed, any other
  entry becomes \<open>NaN\<close>.\<close>

fun str_lower :: "cell \<Rightarrow> cell" where
  "str_lower (Str s) = Str (py_lower s)"
| "str_lower x = NaN"

fun str_strip :: "cell \<Rightarrow> cell" where
  "str_strip (Str s) = Str (py_strip s)"
| "str_strip x = NaN"

text \<open>\<open>df[c] = values\<close> and \<open>df.loc[:, c] = values\<close>: every row gets its new cell; a new
  column goes to the end of the index.\<close>

definition set_column :: "dataframe \<Rightarrow> string \<Rightarrow> cell list \<Rightarrow> dataframe" where
  "set_column df c vs =
     df\<lparr>columns := (if c \<in> set (columns df) then columns df else columns df @ [c]),
        rows := map (\<lambda>(r, v). AList.update c v r) (zip (rows df) vs)\<rparr>"

text \<open>\<open>value.lower().strip()\<close> on a comparison value: only a text has these methods.\<close>

fun clean_value :: "cell \<Rightarrow> exn + cell" where
  "clean_value (Str s) = Inr (Str (py_strip (py_lower s)))"
| "clean_value x = Inl AttributeError"

fun problem_reported_count_botwise_values ::
  "(string \<Rightarrow> stamp option) \<Rightarrow> cell \<Rightarrow> dataframe \<Rightarrow> string \<Rightarrow> cell list \<Rightarrow> (cell, (cell, int) dict) dict
     \<Rightarrow> exn + (cell, (cell, int) dict) dict" where
  "problem_reported_count_botwise_values scalar bot_key df column_name [] mode_counts =
     Inr mode_counts"
| "problem_reported_count_botwise_values scalar bot_key df column_name (v # vs) mode_counts =
     (case clean_value v of
        Inl e \<Rightarrow> Inl e
      | Inr cleaned_value \<Rightarrow>
          (let count = mask_sum (mask_eq scalar (series df column_name) cleaned_value)
           in case set_nested mode_counts v bot_key count of
                Inl e \<Rightarrow> Inl e
              | Inr mode_counts' \<Rightarrow>
                  problem_reported_count_botwise_values scalar bot_key df column_name vs
                    mode_counts'))"

text \<open>
  The loop over the keys rewrites the stored record sets, so it threads the partition
  map along and returns it with the outcome: what an exception leaves behind is the
  map as rewritten so far. The warning of the missing-column branch formats the name
  \<open>key\<close>, which this function never binds (its loop variable is \<open>bot_key\<close>), so the
  branch ends in \<open>NameError\<close> before its \<open>continue\<close>. The parameter \<open>str_accessor\<close> is
  the test pandas makes before it grants \<open>.str\<close> on a column.
\<close>

fun problem_reported_count_botwise_keys ::
  "(string \<Rightarrow> stamp option) \<Rightarrow> (cell list \<Rightarrow> bool) \<Rightarrow> (cell, dataframe) dict \<Rightarrow> cell list \<Rightarrow> cell list \<Rightarrow> string
     \<Rightarrow> (cell, (cell, int) dict) dict
     \<Rightarrow> (cell, dataframe) dict \<times> (exn + (cell, (cell, int) dict) dict)" where
  "problem_reported_count_botwise_keys scalar str_accessor d [] comparison_values column_name
     mode_counts = (d, Inr mode_counts)"
| "problem_reported_count_botwise_keys scalar str_accessor d (bot_key # ks) comparison_values
     column_name mode_counts =
     (case map_of d bot_key of
        None \<Rightarrow>
          problem_reported_count_botwise_keys scalar str_accessor d ks comparison_values column_name
            mode_counts
      | Some df \<Rightarrow>
          if column_name \<notin> set (columns df) then (d, Inl NameError)
          else if \<not> str_accessor (series df column_name) then (d, Inl AttributeError)
          else
            (let df' = set_column df column_name
                         (map str_strip (map str_lower (series df column_name)));
                 d' = AList.update bot_key df' d
             in case problem_reported_count_botwise_values scalar bot_key df' column_name
                       comparison_values mode_counts of
                  Inl e \<Rightarrow> (d', Inl e)
                | Inr mode_counts' \<Rightarrow>
                    problem_reported_count_botwise_keys scalar str_accessor d' ks comparison_values
                      column_name mode_counts'))"

definition problem_reported_count_botwise ::
  "(string \<Rightarrow> stamp option) \<Rightarrow> (cell list \<Rightarrow> bool) \<Rightarrow> (cell, dataframe) dict \<Rightarrow> cell list \<Rightarrow> cell list \<Rightarrow> string
     \<Rightarrow> (cell, dataframe) dict \<times> (exn + (cell, (cell, int) dict) dict)" where
  "problem_reported_count_botwise scalar str_accessor splitted_df_dict splitted_df_key_list
     comparison_values column_name =
     problem_reported_count_botwise_keys scalar str_accessor splitted_df_dict splitted_df_key_list
       comparison_values column_name (init_mode_counts comparison_values)"

section \<open>Time window filter\<close>











section \<open>Bot partitioner\<close>

text \<open>
  The function has two return statements: the dictionary of the comprehension, and, in
  the handler, the pair \<open>{}, []\<close>.
\<close>

datatype split_return =
  Dict "(cell, dataframe) dict"
| Tuple "(cell, dataframe) dict" "cell list"

definition split_dataframe_by_bot_name :: "(string \<Rightarrow> stamp option) \<Rightarrow> dataframe \<Rightarrow> cell list \<Rightarrow> string \<Rightarrow> split_return" where
  "split_dataframe_by_bot_name scalar df bot_name_list bot_name_column =
     (if bot_name_column \<notin> set (columns df) then Tuple [] []
      else Dict (fold (\<lambda>bot acc.
                   AList.update bot (select_rows df (mask_eq scalar (series df bot_name_column) bot)) acc)
                 bot_name_list []))"

text \<open>The caller, \<open>process_csv_files_in_folder\<close>, goes on with
  \<open>list(splitted_df_dict.keys())\<close>: the pair of the handler has no \<open>keys\<close>.\<close>

fun dict_of_split :: "split_return \<Rightarrow> exn + (cell, dataframe) dict" where
  "dict_of_split (Dict d) = Inr d"
| "dict_of_split (Tuple d l) = Inl AttributeError"

section \<open>Reading the tables\<close>

text \<open>The number of rows of a record set whose cell in a column compares equal to a
  value: what \<open>(df[column] == value).sum()\<close> computes.\<close>

definition matches :: "(string \<Rightarrow> stamp option) \<Rightarrow> dataframe \<Rightarrow> string \<Rightarrow> cell \<Rightarrow> int" where
  "matches scalar df c v =
     int (length (filter (\<lambda>r. compares_equal scalar (series df c) (cell_at r c) v) (rows df)))"

text \<open>\<open>table[v][k]\<close> read as an option: absent when either key is.\<close>

definition lookup2 :: "('a, ('b, 'c) dict) dict \<Rightarrow> 'a \<Rightarrow> 'b \<Rightarrow> 'c option" where
  "lookup2 mc v k = (case map_of mc v of None \<Rightarrow> None | Some inner \<Rightarrow> map_of inner k)"

text \<open>The rows a status filter keeps: \<open>df[df[status_column] == status_value]\<close>.\<close>

definition status_rows :: "(string \<Rightarrow> stamp option) \<Rightarrow> dataframe \<Rightarrow> string \<Rightarrow> cell \<Rightarrow> dataframe" where
  "status_rows scalar df status_column status_value =
     select_rows df (mask_eq scalar (series df status_column) status_value)"





section \<open>Example data\<close>

definition closed_open_frame :: dataframe where
  "closed_open_frame =
     \<lparr>columns = [''Bot Name'', ''Mode'', ''Status''],
      rows = [[(''Bot Name'', Str ''A''), (''Mode'', Str ''Email''), (''Status'', Str ''Closed'')],
              [(''Bot Name'', Str ''A''), (''Mode'', Str ''Email''), (''Status'', Str ''Open'')]]\<rparr>"

text \<open>A stand-in for the way pandas prints a timestamp, for the runs below.\<close>

definition ts_iso :: "stamp \<Rightarrow> string" where
  "ts_iso st = ''1970-01-01 00:00:00''"

text \<open>A table standing in for \<open>Timestamp(text)\<close>: two spellings of 2024-06-14, the first
  day of that month, and nothing else.\<close>

definition text_stamp :: "string \<Rightarrow> stamp option" where
  "text_stamp s =
     (if s = ''2024-06-14'' then Some (Naive, 1718323200000000000)
      else if s = ''2024-06-14 00:00:00'' then Some (Naive, 1718323200000000000)
      else if s = ''2024-06-01'' then Some (Naive, 1717200000000000000)
      else None)"

text \<open>Two bots, the second with no ticket in the window.\<close>

definition two_bot_dict :: "(cell, dataframe) dict" where
  "two_bot_dict =
     [(Str ''A'', closed_open_frame),
      (Str ''B'', \<lparr>columns = [''Bot Name'', ''Mode'', ''Status''], rows = []\<rparr>)]"

text \<open>Two bots whose names, joined to a mode by an underscore, read the same:
  \<open>a\<close> with \<open>b_c\<close> and \<open>a_b\<close> with \<open>c\<close>.\<close>

definition underscore_dict :: "(cell, dataframe) dict" where
  "underscore_dict =
     [(Str ''a'', \<lparr>columns = [''Bot Name'', ''Mode'', ''Status''], rows = []\<rparr>),
      (Str ''a_b'',
       \<lparr>columns = [''Bot Name'', ''Mode'', ''Status''],
        rows = [[(''Bot Name'', Str ''a_b''), (''Mode'', Str ''c''),
                 (''Status'', Str ''Closed'')]]\<rparr>)]"




text \<open>A frame whose column \<open>Bot Name\<close> is a datetime64 column.\<close>

definition stamped_bot_frame :: dataframe where
  "stamped_bot_frame =
     \<lparr>columns = [''Bot Name'', ''Mode''],
      rows = [[(''Bot Name'', Date (Naive, 1718323200000000000)), (''Mode'', Str ''Email'')]]\<rparr>"

text \<open>A stand-in for the test of the \<open>.str\<close> accessor: every column of the examples is a
  text column.\<close>

definition grants_str :: "cell list \<Rightarrow> bool" where
  "grants_str s = True"

text \<open>A record set without the column \<open>Status\<close> (and without \<open>Problem Reported\<close>).\<close>

definition no_status_frame :: dataframe where
  "no_status_frame =
     \<lparr>columns = [''Bot Name'', ''Mode''],
      rows = [[(''Bot Name'', Str ''A''), (''Mode'', Str ''Email'')]]\<rparr>"


section \<open>Masks and selections\<close>


lemma filter_zip_map: "map fst (filter snd (zip xs (map P xs))) = filter P xs"
  by (induction xs) auto

lemma rows_select_mask_eq:
  "rows (select_rows df (mask_eq scalar (series df c) v))
   = filter (\<lambda>r. compares_equal scalar (series df c) (cell_at r c) v) (rows df)"
  by (simp add: select_rows_def mask_eq_def series_def filter_zip_map comp_def)

lemma columns_select_rows: "columns (select_rows df m) = columns df"
  by (simp add: select_rows_def)

lemma length_filter_map_id: "length (filter (\<lambda>b. b) (map P xs)) = length (filter P xs)"
  by (induction xs) auto

lemma mask_sum_mask_eq:
  "mask_sum (mask_eq scalar (series df c) v)
   = int (length (filter (\<lambda>r. compares_equal scalar (series df c) (cell_at r c) v) (rows df)))"
  by (simp add: mask_sum_def mask_eq_def series_def length_filter_map_id comp_def)


lemma matches_zero:
  "\<forall>r\<in>set (rows df). \<not> compares_equal scalar (series df c) (cell_at r c) v \<Longrightarrow>
   matches scalar df c v = 0"
  by (auto simp: matches_def filter_empty_conv)

lemma ttrc_values_Cons:
  "total_ticket_received_count_values scalar ts key df c (v # vs) acc =
   total_ticket_received_count_values scalar ts key df c vs
     (AList.update (flat_key ts key v) (matches scalar df c v) acc)"
  by (simp add: Let_def mask_sum_mask_eq matches_def)

lemma ttrc_values_sound:
  "map_of (total_ticket_received_count_values scalar ts key df c vs acc) s = Some n \<Longrightarrow>
   map_of acc s = Some n \<or> (\<exists>v\<in>set vs. s = flat_key ts key v \<and> n = matches scalar df c v)"
proof (induction vs arbitrary: acc)
  case Nil
  then show ?case by simp
next
  case (Cons v vs)
  from Cons.prems
  have "map_of (AList.update (flat_key ts key v) (matches scalar df c v) acc) s = Some n
        \<or> (\<exists>v\<in>set vs. s = flat_key ts key v \<and> n = matches scalar df c v)"
    using Cons.IH unfolding ttrc_values_Cons by blast
  then show ?case
    by (auto simp: update_conv' split: if_splits)
qed

lemma ttrc_values_dom:
  "map_of acc s \<noteq> None \<or> (\<exists>v\<in>set vs. s = flat_key ts key v) \<Longrightarrow>
   map_of (total_ticket_received_count_values scalar ts key df c vs acc) s \<noteq> None"
proof (induction vs arbitrary: acc)
  case Nil
  then show ?case by simp
next
  case (Cons v vs)
  show ?case
    unfolding ttrc_values_Cons
    by (rule Cons.IH) (use Cons.prems in \<open>auto simp: update_conv'\<close>)
qed

lemma ttrc_keys_sound:
  "map_of (total_ticket_received_count_keys scalar ts d ks vs c acc) s = Some n \<Longrightarrow>
   map_of acc s = Some n \<or>
   (\<exists>k\<in>set ks. \<exists>df. \<exists>v\<in>set vs. map_of d k = Some df \<and> c \<in> set (columns df) \<and>
       s = flat_key ts k v \<and> n = matches scalar df c v)"
proof (induction ks arbitrary: acc)
  case Nil
  then show ?case by simp
next
  case (Cons k ks)
  show ?case
  proof (cases "map_of d k")
    case None
    with Cons show ?thesis by fastforce
  next
    case (Some df)
    show ?thesis
    proof (cases "c \<in> set (columns df)")
      case False
      with Some Cons show ?thesis by fastforce
    next
      case True
      with Some Cons.prems
      have "map_of (total_ticket_received_count_keys scalar ts d ks vs c
              (total_ticket_received_count_values scalar ts k df c vs acc)) s = Some n"
        by simp
      from Cons.IH[OF this] show ?thesis
        using ttrc_values_sound[of scalar ts k df c vs acc s n] Some True by auto
    qed
  qed
qed

lemma ttrc_keys_dom:
  "map_of acc s \<noteq> None \<or>
   (\<exists>k\<in>set ks. \<exists>df. \<exists>v\<in>set vs. map_of d k = Some df \<and> c \<in> set (columns df) \<and>
       s = flat_key ts k v) \<Longrightarrow>
   map_of (total_ticket_received_count_keys scalar ts d ks vs c acc) s \<noteq> None"
proof (induction ks arbitrary: acc)
  case Nil
  then show ?case by simp
next
  case (Cons k ks)
  show ?case
  proof (cases "map_of d k")
    case None
    with Cons.prems have "map_of acc s \<noteq> None \<or>
      (\<exists>k\<in>set ks. \<exists>df. \<exists>v\<in>set vs. map_of d k = Some df \<and> c \<in> set (columns df) \<and>
       s = flat_key ts k v)" by auto
    from Cons.IH[OF this] None show ?thesis by simp
  next
    case (Some df)
    show ?thesis
    proof (cases "c \<in> set (columns df)")
      case False
      with Some Cons.prems have "map_of acc s \<noteq> None \<or>
      (\<exists>k\<in>set ks. \<exists>df. \<exists>v\<in>set vs. map_of d k = Some df \<and> c \<in> set (columns df) \<and>
       s = flat_key ts k v)" by auto
      from Cons.IH[OF this] Some False show ?thesis by simp
    next
      case True
      have "map_of (total_ticket_received_count_values scalar ts k df c vs acc) s \<noteq> None \<or>
      (\<exists>k\<in>set ks. \<exists>df. \<exists>v\<in>set vs. map_of d k = Some df \<and> c \<in> set (columns df) \<and>
       s = flat_key ts k v)"
        using Cons.prems Some True ttrc_values_dom[where acc=acc and s=s and vs=vs and ts=ts and key=k and df=df and c=c and scalar=scalar] by auto
      from Cons.IH[OF this] Some True show ?thesis by simp
    qed
  qed
qed



lemma map_of_init_mode_counts_aux:
  "map_of (fold (\<lambda>v acc. AList.update v [] acc) vs acc) x =
     (if x \<in> set vs then Some [] else map_of acc x)"
  by (induction vs arbitrary: acc) (auto simp: update_conv')

lemma map_of_init_mode_counts:
  "map_of (init_mode_counts vs) x = (if x \<in> set vs then Some [] else None)"
  by (simp add: init_mode_counts_def map_of_init_mode_counts_aux)

lemma lookup2_init_mode_counts: "lookup2 (init_mode_counts vs) v k = None"
  by (simp add: lookup2_def map_of_init_mode_counts)

lemma set_nested_Inr:
  assumes "v \<in> dom (map_of mc)"
  shows "\<exists>mc'. set_nested mc v k n = Inr mc' \<and> dom (map_of mc') = dom (map_of mc) \<and>
           (\<forall>v' k'. lookup2 mc' v' k' = (if v' = v \<and> k' = k then Some n else lookup2 mc v' k'))"
proof -
  from assms obtain inner where inner: "map_of mc v = Some inner" by auto
  let ?mc' = "AList.update v (AList.update k n inner) mc"
  have "set_nested mc v k n = Inr ?mc'" by (simp add: set_nested_def inner)
  moreover have "dom (map_of ?mc') = dom (map_of mc)"
    using inner by (auto simp: update_conv')
  moreover have "\<forall>v' k'. lookup2 ?mc' v' k' = (if v' = v \<and> k' = k then Some n else lookup2 mc v' k')"
    using inner by (simp add: lookup2_def update_conv')
  ultimately show ?thesis by blast
qed

lemma modewise_values_Inr:
  assumes "set vs \<subseteq> dom (map_of mc)"
  shows "\<exists>mc'. total_ticket_received_count_modewise_values scalar key df c vs mc = Inr mc' \<and>
           dom (map_of mc') = dom (map_of mc) \<and>
           (\<forall>v' k'. lookup2 mc' v' k' =
              (if k' = key \<and> v' \<in> set vs then Some (matches scalar df c v') else lookup2 mc v' k'))"
  using assms
proof (induction vs arbitrary: mc)
  case Nil
  then show ?case by simp
next
  case (Cons v vs)
  let ?n = "matches scalar df c v"
  from Cons.prems have "v \<in> dom (map_of mc)" by simp
  from set_nested_Inr[OF this, of key ?n] obtain mc1 where
    mc1: "set_nested mc v key ?n = Inr mc1" "dom (map_of mc1) = dom (map_of mc)"
      "\<forall>v' k'. lookup2 mc1 v' k' = (if v' = v \<and> k' = key then Some ?n else lookup2 mc v' k')"
    by blast
  have "\<exists>mc2. (if ?n = 0 then set_nested mc1 v key 0 else Inr mc1) = Inr mc2 \<and>
          dom (map_of mc2) = dom (map_of mc) \<and>
          (\<forall>v' k'. lookup2 mc2 v' k' = (if v' = v \<and> k' = key then Some ?n else lookup2 mc v' k'))"
  proof (cases "?n = 0")
    case True
    have "v \<in> dom (map_of mc1)" using mc1(2) Cons.prems by simp
    from set_nested_Inr[OF this, of key 0] mc1 True show ?thesis by auto
  next
    case False
    with mc1 show ?thesis by simp
  qed
  then obtain mc2 where
    mc2: "(if ?n = 0 then set_nested mc1 v key 0 else Inr mc1) = Inr mc2"
      "dom (map_of mc2) = dom (map_of mc)"
      "\<forall>v' k'. lookup2 mc2 v' k' = (if v' = v \<and> k' = key then Some ?n else lookup2 mc v' k')"
    by blast
  have "set vs \<subseteq> dom (map_of mc2)" using mc2(2) Cons.prems by simp
  from Cons.IH[OF this] obtain mc' where
    mc': "total_ticket_received_count_modewise_values scalar key df c vs mc2 = Inr mc'"
      "dom (map_of mc') = dom (map_of mc2)"
      "\<forall>v' k'. lookup2 mc' v' k' =
              (if k' = key \<and> v' \<in> set vs then Some (matches scalar df c v') else lookup2 mc2 v' k')"
    by blast
  have step: "total_ticket_received_count_modewise_values scalar key df c (v # vs) mc = Inr mc'"
    using mc1(1) mc2(1) mc'(1)
    by (simp add: Let_def mask_sum_mask_eq matches_def[symmetric])
  show ?case
    using step mc'(2) mc2(2) mc'(3) mc2(3) by auto
qed

lemma modewise_keys_Inr:
  assumes "set vs \<subseteq> dom (map_of mc)"
  shows "\<exists>mc'. total_ticket_received_count_modewise_keys scalar d ks vs c mc = Inr mc' \<and>
           dom (map_of mc') = dom (map_of mc) \<and>
           (\<forall>v' k'. lookup2 mc' v' k' =
              (case map_of d k' of
                 None \<Rightarrow> lookup2 mc v' k'
               | Some df \<Rightarrow>
                   if k' \<in> set ks \<and> v' \<in> set vs \<and> c \<in> set (columns df)
                   then Some (matches scalar df c v') else lookup2 mc v' k'))"
  using assms
proof (induction ks arbitrary: mc)
  case Nil
  then show ?case by (simp split: option.split)
next
  case (Cons k ks)
  show ?case
  proof (cases "map_of d k")
    case None
    from Cons.IH[OF Cons.prems] obtain mc' where
      mc': "total_ticket_received_count_modewise_keys scalar d ks vs c mc = Inr mc'"
        "dom (map_of mc') = dom (map_of mc)"
        "\<forall>v' k'. lookup2 mc' v' k' =
              (case map_of d k' of
                 None \<Rightarrow> lookup2 mc v' k'
               | Some df \<Rightarrow>
                   if k' \<in> set ks \<and> v' \<in> set vs \<and> c \<in> set (columns df)
                   then Some (matches scalar df c v') else lookup2 mc v' k')"
      by blast
    show ?thesis
      using None mc' by (auto split: option.split)
  next
    case (Some df)
    show ?thesis
    proof (cases "c \<in> set (columns df)")
      case False
      from Cons.IH[OF Cons.prems] obtain mc' where
        mc': "total_ticket_received_count_modewise_keys scalar d ks vs c mc = Inr mc'"
          "dom (map_of mc') = dom (map_of mc)"
          "\<forall>v' k'. lookup2 mc' v' k' =
              (case map_of d k' of
                 None \<Rightarrow> lookup2 mc v' k'
               | Some df \<Rightarrow>
                   if k' \<in> set ks \<and> v' \<in> set vs \<and> c \<in> set (columns df)
                   then Some (matches scalar df c v') else lookup2 mc v' k')"
        by blast
      show ?thesis
        using Some False mc' by (auto split: option.split)
    next
      case True
      from modewise_values_Inr[OF Cons.prems, where key=k and df=df and c=c and scalar=scalar] obtain mc1 where
        mc1: "total_ticket_received_count_modewise_values scalar k df c vs mc = Inr mc1"
          "dom (map_of mc1) = dom (map_of mc)"
          "\<forall>v' k'. lookup2 mc1 v' k' =
              (if k' = k \<and> v' \<in> set vs then Some (matches scalar df c v') else lookup2 mc v' k')"
        by blast
      have "set vs \<subseteq> dom (map_of mc1)" using mc1(2) Cons.prems by simp
      from Cons.IH[OF this] obtain mc' where
        mc': "total_ticket_received_count_modewise_keys scalar d ks vs c mc1 = Inr mc'"
          "dom (map_of mc') = dom (map_of mc1)"
          "\<forall>v' k'. lookup2 mc' v' k' =
              (case map_of d k' of
                 None \<Rightarrow> lookup2 mc1 v' k'
               | Some df \<Rightarrow>
                   if k' \<in> set ks \<and> v' \<in> set vs \<and> c \<in> set (columns df)
                   then Some (matches scalar df c v') else lookup2 mc1 v' k')"
        by blast
      have "total_ticket_received_count_modewise_keys scalar d (k # ks) vs c mc = Inr mc'"
        using Some True mc1(1) mc'(1) by simp
      moreover have "dom (map_of mc') = dom (map_of mc)" using mc'(2) mc1(2) by simp
      moreover have "\<forall>v' k'. lookup2 mc' v' k' =
              (case map_of d k' of
                 None \<Rightarrow> lookup2 mc v' k'
               | Some df \<Rightarrow>
                   if k' \<in> set (k # ks) \<and> v' \<in> set vs \<and> c \<in> set (columns df)
                   then Some (matches scalar df c v') else lookup2 mc v' k')"
        using mc'(3) mc1(3) Some True by (auto split: option.split)
      ultimately show ?thesis by blast
    qed
  qed
qed

lemma modewise_result:
  "\<exists>mc. total_ticket_received_count_modewise scalar d ks vs c = Inr mc \<and>
     (\<forall>v k. lookup2 mc v k =
        (case map_of d k of
           None \<Rightarrow> None
         | Some df \<Rightarrow>
             if k \<in> set ks \<and> v \<in> set vs \<and> c \<in> set (columns df)
             then Some (matches scalar df c v) else None))"
proof -
  have "set vs \<subseteq> dom (map_of (init_mode_counts vs))"
    by (auto simp: map_of_init_mode_counts)
  from modewise_keys_Inr[OF this, where d=d and ks=ks and c=c and scalar=scalar] obtain mc where
    mc: "total_ticket_received_count_modewise_keys scalar d ks vs c (init_mode_counts vs) = Inr mc"
      "\<forall>v' k'. lookup2 mc v' k' =
              (case map_of d k' of
                 None \<Rightarrow> lookup2 (init_mode_counts vs) v' k'
               | Some df \<Rightarrow>
                   if k' \<in> set ks \<and> v' \<in> set vs \<and> c \<in> set (columns df)
                   then Some (matches scalar df c v') else lookup2 (init_mode_counts vs) v' k')"
    by blast
  show ?thesis
    unfolding total_ticket_received_count_modewise_def
    using mc by (auto simp: lookup2_init_mode_counts split: option.split)
qed

section \<open>Scenarios\<close>

lemmas eval_defs = get_column_def series_def cell_at_def mask_eq_def compares_equal_def
  scalar_for_def is_datetime64_def column_tz_def cell_eq_def mask_sum_def select_rows_def
  flat_key_def status_key_def

text \<open>
  C8. With the single partition \<open>A\<close> holding one closed and one open e-mail ticket,
  \<open>count_tickets_for_unique_modes\<close> for keys \<open>[A]\<close>, modes \<open>[Email]\<close>, status column
  \<open>Status\<close> and status value \<open>Closed\<close> returns exactly the dictionary
  \<open>{total_Closed_ticket_A_Email: 1}\<close>.
\<close>

theorem count_tickets_for_unique_modes_scenario:
  "count_tickets_for_unique_modes scalar ts [(Str ''A'', closed_open_frame)] [Str ''A'']
     [Str ''Email''] ''Status'' (Str ''Closed'')
   = Inr [(''total_Closed_ticket_A_Email'', 1)]"
  by (simp add: count_tickets_for_unique_modes_def closed_open_frame_def eval_defs)

section \<open>Flat and nested counts\<close>

lemma flat_entry:
  assumes "key \<in> set keys" "map_of d key = Some df" "column \<in> set (columns df)" "v \<in> set vals"
    and inj: "\<forall>k'\<in>set keys. \<forall>v'\<in>set vals.
               flat_key ts k' v' = flat_key ts key v \<longrightarrow> k' = key \<and> v' = v"
  shows "map_of (total_ticket_received_count scalar ts d keys vals column) (flat_key ts key v)
         = Some (matches scalar df column v)"
proof -
  let ?flat = "total_ticket_received_count scalar ts d keys vals column"
  have "map_of ?flat (flat_key ts key v) \<noteq> None"
    unfolding total_ticket_received_count_def
    by (rule ttrc_keys_dom) (use assms(1-4) in blast)
  then obtain n where n: "map_of ?flat (flat_key ts key v) = Some n" by blast
  from ttrc_keys_sound[OF n[unfolded total_ticket_received_count_def]]
  obtain k' df' v' where *: "k' \<in> set keys" "v' \<in> set vals" "map_of d k' = Some df'"
      "flat_key ts key v = flat_key ts k' v'" "n = matches scalar df' column v'"
    by auto
  from inj * have "k' = key" "v' = v" by auto
  with * assms(2) have "n = matches scalar df column v" by simp
  with n show ?thesis by simp
qed

lemma nested_entry:
  assumes "key \<in> set keys" "map_of d key = Some df" "column \<in> set (columns df)" "v \<in> set vals"
  shows "\<exists>mc inner.
           total_ticket_received_count_modewise scalar d keys vals column = Inr mc \<and>
           map_of mc v = Some inner \<and> map_of inner key = Some (matches scalar df column v)"
proof -
  from modewise_result[where d=d and ks=keys and vs=vals and c=column and scalar=scalar] obtain mc where
    mc: "total_ticket_received_count_modewise scalar d keys vals column = Inr mc"
      "\<forall>v k. lookup2 mc v k =
        (case map_of d k of
           None \<Rightarrow> None
         | Some df \<Rightarrow>
             if k \<in> set keys \<and> v \<in> set vals \<and> column \<in> set (columns df)
             then Some (matches scalar df column v) else None)"
    by blast
  from mc(2) assms have "lookup2 mc v key = Some (matches scalar df column v)" by simp
  then obtain inner where "map_of mc v = Some inner" "map_of inner key = Some (matches scalar df column v)"
    by (auto simp: lookup2_def split: option.splits)
  with mc(1) show ?thesis by blast
qed

text \<open>
  C1, as stated, fails on the flat table. The keys \<open>a\<close> and \<open>a_b\<close> are both in the map
  and both record sets have the column \<open>Mode\<close>; no row of \<open>a\<close> has the mode \<open>b_c\<close>
  (the record set of \<open>a\<close> is empty). The entry of the combination (\<open>a\<close>, \<open>b_c\<close>) is
  read at \<open>a_b_c\<close>, where the later combination (\<open>a_b\<close>, \<open>c\<close>) has written its count 1.
\<close>

theorem total_ticket_received_count_collision:
  "map_of underscore_dict (Str ''a'') =
     Some \<lparr>columns = [''Bot Name'', ''Mode'', ''Status''], rows = []\<rparr>
   \<and> map_of underscore_dict (Str ''a_b'') =
     Some \<lparr>columns = [''Bot Name'', ''Mode'', ''Status''],
           rows = [[(''Bot Name'', Str ''a_b''), (''Mode'', Str ''c''),
                    (''Status'', Str ''Closed'')]]\<rparr>
   \<and> flat_key ts_iso (Str ''a'') (Str ''b_c'') = ''a_b_c''
   \<and> map_of (total_ticket_received_count text_stamp ts_iso underscore_dict [Str ''a'', Str ''a_b'']
               [Str ''b_c'', Str ''c''] ''Mode'') ''a_b_c'' = Some 1"
  by (simp add: underscore_dict_def total_ticket_received_count_def eval_defs)

text \<open>
  C1, amended. For a listed key that is in the partition map and whose record set has
  the column, and for a requested value: the flat table of
  \<open>total_ticket_received_count\<close> has an entry at the composite key of the combination;
  the nested table of \<open>total_ticket_received_count_modewise\<close> is returned and has an
  entry for the combination, which is 0 when no row of the key's record set has the
  value in the column; and the flat entry is 0 in that case too, provided no other
  requested combination is formatted to the same composite key. A row has the value
  when its entry compares equal to it, as \<open>column == value\<close> decides: against a
  datetime64 column a text value is read as a timestamp.
\<close>

theorem requested_counts_never_absent:
  assumes "key \<in> set keys" "map_of d key = Some df" "column \<in> set (columns df)" "v \<in> set vals"
  shows "map_of (total_ticket_received_count scalar ts d keys vals column) (flat_key ts key v) \<noteq> None
       \<and> (\<exists>mc inner n.
            total_ticket_received_count_modewise scalar d keys vals column = Inr mc \<and>
            map_of mc v = Some inner \<and> map_of inner key = Some n \<and>
            ((\<forall>r\<in>set (rows df). \<not> compares_equal scalar (series df column) (cell_at r column) v) \<longrightarrow> n = 0))
       \<and> ((\<forall>k'\<in>set keys. \<forall>v'\<in>set vals.
              flat_key ts k' v' = flat_key ts key v \<longrightarrow> k' = key \<and> v' = v) \<longrightarrow>
           (\<forall>r\<in>set (rows df). \<not> compares_equal scalar (series df column) (cell_at r column) v) \<longrightarrow>
           map_of (total_ticket_received_count scalar ts d keys vals column) (flat_key ts key v)
           = Some 0)"
proof (intro conjI impI)
  show "map_of (total_ticket_received_count scalar ts d keys vals column) (flat_key ts key v) \<noteq> None"
    unfolding total_ticket_received_count_def
    by (rule ttrc_keys_dom) (use assms in blast)
next
  from nested_entry[OF assms]
  show "\<exists>mc inner n.
            total_ticket_received_count_modewise scalar d keys vals column = Inr mc \<and>
            map_of mc v = Some inner \<and> map_of inner key = Some n \<and>
            ((\<forall>r\<in>set (rows df). \<not> compares_equal scalar (series df column) (cell_at r column) v) \<longrightarrow> n = 0)"
    using matches_zero[where df=df and c=column and v=v and scalar=scalar] by blast
next
  assume "\<forall>k'\<in>set keys. \<forall>v'\<in>set vals.
              flat_key ts k' v' = flat_key ts key v \<longrightarrow> k' = key \<and> v' = v"
    and "\<forall>r\<in>set (rows df). \<not> compares_equal scalar (series df column) (cell_at r column) v"
  then show "map_of (total_ticket_received_count scalar ts d keys vals column) (flat_key ts key v) = Some 0"
    using flat_entry[OF assms] matches_zero[where df=df and c=column and v=v and scalar=scalar] by simp
qed

text \<open>A text value against a datetime64 column: the entry 2024-06-14 of the column has
  the value \<open>2024-06-14\<close>, and the value \<open>soon\<close> is no date and is had by no entry.\<close>

lemma total_ticket_received_count_datetime_column:
  "total_ticket_received_count text_stamp ts_iso [(Str ''A'', stamped_bot_frame)] [Str ''A'']
     [Str ''2024-06-14'', Str ''soon''] ''Bot Name''
   = [(''A_2024-06-14'', 1), (''A_soon'', 0)]"
  by (simp add: total_ticket_received_count_def stamped_bot_frame_def text_stamp_def
      eval_defs)

text \<open>The amended C1 at bots \<open>A\<close> and \<open>B\<close>, modes \<open>Email\<close> and \<open>Phone\<close>: bot \<open>B\<close> has no
  rows, and both tables hold 0 for (\<open>B\<close>, \<open>Email\<close>).\<close>

theorem requested_counts_never_absent_witness:
  "map_of (total_ticket_received_count text_stamp ts_iso two_bot_dict [Str ''A'', Str ''B'']
             [Str ''Email'', Str ''Phone''] ''Mode'') ''B_Email'' = Some 0
   \<and> (\<exists>mc inner.
         total_ticket_received_count_modewise text_stamp two_bot_dict [Str ''A'', Str ''B'']
           [Str ''Email'', Str ''Phone''] ''Mode'' = Inr mc \<and>
         map_of mc (Str ''Email'') = Some inner \<and> map_of inner (Str ''B'') = Some 0)"
  using requested_counts_never_absent[where key="Str ''B''" and keys="[Str ''A'', Str ''B'']"
      and d=two_bot_dict
      and df="\<lparr>columns = [''Bot Name'', ''Mode'', ''Status''], rows = []\<rparr>"
      and column="''Mode''" and v="Str ''Email''" and vals="[Str ''Email'', Str ''Phone'']"
      and ts=ts_iso and scalar=text_stamp]
  by (simp add: two_bot_dict_def flat_key_def)

text \<open>
  C3, as stated, fails. On the two bots \<open>a\<close> and \<open>a_b\<close> with the values \<open>b_c\<close> and \<open>c\<close>,
  the nested table holds 0 at \<open>[b_c][a]\<close>, and the flat table holds 1 at the composite
  key \<open>a_b_c\<close> of that combination.
\<close>

theorem modewise_transpose_collision:
  "total_ticket_received_count_modewise text_stamp underscore_dict [Str ''a'', Str ''a_b'']
     [Str ''b_c'', Str ''c''] ''Mode''
   = Inr [(Str ''b_c'', [(Str ''a'', 0), (Str ''a_b'', 0)]),
          (Str ''c'', [(Str ''a'', 0), (Str ''a_b'', 1)])]
   \<and> total_ticket_received_count text_stamp ts_iso underscore_dict [Str ''a'', Str ''a_b'']
       [Str ''b_c'', Str ''c''] ''Mode''
     = [(''a_b_c'', 1), (''a_c'', 0), (''a_b_b_c'', 0)]"
  by (simp add: underscore_dict_def total_ticket_received_count_def
      total_ticket_received_count_modewise_def init_mode_counts_def set_nested_def eval_defs)

text \<open>
  C3, amended. For a listed key that is in the partition map and whose record set has
  the column, and for a requested value whose composite key no other requested
  combination shares: \<open>total_ticket_received_count_modewise\<close> returns a table whose
  entry at \<open>[value][key]\<close> equals the entry of \<open>total_ticket_received_count\<close> at the
  composite key.
\<close>

theorem modewise_transpose:
  assumes "key \<in> set keys" "map_of d key = Some df" "column \<in> set (columns df)" "v \<in> set vals"
    and "\<forall>k'\<in>set keys. \<forall>v'\<in>set vals.
           flat_key ts k' v' = flat_key ts key v \<longrightarrow> k' = key \<and> v' = v"
  shows "\<exists>mc inner n.
           total_ticket_received_count_modewise scalar d keys vals column = Inr mc \<and>
           map_of mc v = Some inner \<and> map_of inner key = Some n \<and>
           map_of (total_ticket_received_count scalar ts d keys vals column) (flat_key ts key v) = Some n"
  using nested_entry[OF assms(1-4)] flat_entry[OF assms] by blast

text \<open>The amended C3 at bot \<open>A\<close> and mode \<open>Email\<close>.\<close>

theorem modewise_transpose_witness:
  "\<exists>mc inner n.
     total_ticket_received_count_modewise text_stamp two_bot_dict [Str ''A'', Str ''B'']
       [Str ''Email'', Str ''Phone''] ''Mode'' = Inr mc \<and>
     map_of mc (Str ''Email'') = Some inner \<and> map_of inner (Str ''A'') = Some n \<and>
     map_of (total_ticket_received_count text_stamp ts_iso two_bot_dict [Str ''A'', Str ''B'']
               [Str ''Email'', Str ''Phone''] ''Mode'') ''A_Email'' = Some n"
  using modewise_transpose[where key="Str ''A''" and keys="[Str ''A'', Str ''B'']"
      and d=two_bot_dict and df=closed_open_frame and column="''Mode''" and v="Str ''Email''"
      and vals="[Str ''Email'', Str ''Phone'']" and ts=ts_iso and scalar=text_stamp]
  by (simp add: two_bot_dict_def flat_key_def closed_open_frame_def)

section \<open>Status counts by mode and by bot\<close>



lemma columns_status_rows: "columns (status_rows scalar df sc sv) = columns df"
  by (simp add: status_rows_def columns_select_rows)

lemma ctfum_values_Cons:
  "''Mode'' \<in> set (columns fdf) \<Longrightarrow>
   count_tickets_for_unique_modes_values scalar ts sv key fdf (v # vs) acc =
   count_tickets_for_unique_modes_values scalar ts sv key fdf vs
     (AList.update (status_key ts sv key v) (matches scalar fdf ''Mode'' v) acc)"
  by (simp add: get_column_def Let_def mask_sum_mask_eq matches_def)

lemma ctfum_values_Inr:
  assumes "''Mode'' \<in> set (columns fdf)"
  shows "\<exists>acc'. count_tickets_for_unique_modes_values scalar ts sv key fdf vs acc = Inr acc' \<and>
     (\<forall>s n. map_of acc' s = Some n \<longrightarrow>
        map_of acc s = Some n \<or>
        (\<exists>v\<in>set vs. s = status_key ts sv key v \<and> n = matches scalar fdf ''Mode'' v)) \<and>
     (\<forall>s. map_of acc s \<noteq> None \<or> (\<exists>v\<in>set vs. s = status_key ts sv key v) \<longrightarrow>
        map_of acc' s \<noteq> None)"
proof (induction vs arbitrary: acc)
  case Nil
  then show ?case by simp
next
  case (Cons v vs)
  let ?acc1 = "AList.update (status_key ts sv key v) (matches scalar fdf ''Mode'' v) acc"
  from Cons.IH[of ?acc1] obtain acc' where
    a: "count_tickets_for_unique_modes_values scalar ts sv key fdf vs ?acc1 = Inr acc'"
    and s: "\<forall>s n. map_of acc' s = Some n \<longrightarrow>
        map_of ?acc1 s = Some n \<or>
        (\<exists>v\<in>set vs. s = status_key ts sv key v \<and> n = matches scalar fdf ''Mode'' v)"
    and dm: "\<forall>s. map_of ?acc1 s \<noteq> None \<or> (\<exists>v\<in>set vs. s = status_key ts sv key v) \<longrightarrow>
        map_of acc' s \<noteq> None"
    by blast
  have 1: "count_tickets_for_unique_modes_values scalar ts sv key fdf (v # vs) acc = Inr acc'"
    using a assms by (simp only: ctfum_values_Cons)
  have 2: "\<forall>s n. map_of acc' s = Some n \<longrightarrow>
        map_of acc s = Some n \<or>
        (\<exists>v\<in>set (v # vs). s = status_key ts sv key v \<and> n = matches scalar fdf ''Mode'' v)"
  proof (intro allI impI)
    fix s n assume "map_of acc' s = Some n"
    with s have "map_of ?acc1 s = Some n \<or>
        (\<exists>v\<in>set vs. s = status_key ts sv key v \<and> n = matches scalar fdf ''Mode'' v)" by blast
    then show "map_of acc s = Some n \<or>
        (\<exists>v\<in>set (v # vs). s = status_key ts sv key v \<and> n = matches scalar fdf ''Mode'' v)"
      by (auto simp: update_conv' split: if_splits)
  qed
  have 3: "\<forall>s. map_of acc s \<noteq> None \<or> (\<exists>v\<in>set (v # vs). s = status_key ts sv key v) \<longrightarrow>
        map_of acc' s \<noteq> None"
  proof (intro allI impI)
    fix s assume "map_of acc s \<noteq> None \<or> (\<exists>v\<in>set (v # vs). s = status_key ts sv key v)"
    then have "map_of ?acc1 s \<noteq> None \<or> (\<exists>v\<in>set vs. s = status_key ts sv key v)"
      by (auto simp: update_conv')
    with dm show "map_of acc' s \<noteq> None" by blast
  qed
  from 1 2 3 show ?case by blast
qed

lemma ctfum_keys_Inr:
  assumes "\<forall>k\<in>set ks. \<forall>df. map_of d k = Some df \<longrightarrow>
             sc \<in> set (columns df) \<and> ''Mode'' \<in> set (columns df)"
  shows "\<exists>acc'. count_tickets_for_unique_modes_keys scalar ts d ks ms sc sv acc = Inr acc' \<and>
     (\<forall>s n. map_of acc' s = Some n \<longrightarrow>
        map_of acc s = Some n \<or>
        (\<exists>k\<in>set ks. \<exists>df. \<exists>m\<in>set ms. map_of d k = Some df \<and>
            s = status_key ts sv k m \<and> n = matches scalar (status_rows scalar df sc sv) ''Mode'' m)) \<and>
     (\<forall>s. map_of acc s \<noteq> None \<or>
          (\<exists>k\<in>set ks. \<exists>m\<in>set ms. map_of d k \<noteq> None \<and> s = status_key ts sv k m) \<longrightarrow>
        map_of acc' s \<noteq> None)"
  using assms
proof (induction ks arbitrary: acc)
  case Nil
  then show ?case by simp
next
  case (Cons k ks)
  have prems': "\<forall>k\<in>set ks. \<forall>df. map_of d k = Some df \<longrightarrow>
             sc \<in> set (columns df) \<and> ''Mode'' \<in> set (columns df)"
    using Cons.prems by simp
  show ?case
  proof (cases "map_of d k")
    case None
    from Cons.IH[OF prems', of acc] obtain acc' where
      a: "count_tickets_for_unique_modes_keys scalar ts d ks ms sc sv acc = Inr acc'"
      and s: "\<forall>s n. map_of acc' s = Some n \<longrightarrow>
        map_of acc s = Some n \<or>
        (\<exists>k\<in>set ks. \<exists>df. \<exists>m\<in>set ms. map_of d k = Some df \<and>
            s = status_key ts sv k m \<and> n = matches scalar (status_rows scalar df sc sv) ''Mode'' m)"
      and dm: "\<forall>s. map_of acc s \<noteq> None \<or>
          (\<exists>k\<in>set ks. \<exists>m\<in>set ms. map_of d k \<noteq> None \<and> s = status_key ts sv k m) \<longrightarrow>
        map_of acc' s \<noteq> None"
      by blast
    have 1: "count_tickets_for_unique_modes_keys scalar ts d (k # ks) ms sc sv acc = Inr acc'"
      using a None by simp
    have 2: "\<forall>s n. map_of acc' s = Some n \<longrightarrow>
        map_of acc s = Some n \<or>
        (\<exists>k\<in>set (k # ks). \<exists>df. \<exists>m\<in>set ms. map_of d k = Some df \<and>
            s = status_key ts sv k m \<and> n = matches scalar (status_rows scalar df sc sv) ''Mode'' m)"
      using s by fastforce
    have 3: "\<forall>s. map_of acc s \<noteq> None \<or>
          (\<exists>k\<in>set (k # ks). \<exists>m\<in>set ms. map_of d k \<noteq> None \<and> s = status_key ts sv k m) \<longrightarrow>
        map_of acc' s \<noteq> None"
      using dm None by auto
    from 1 2 3 show ?thesis by blast
  next
    case (Some df)
    with Cons.prems have cols: "sc \<in> set (columns df)" "''Mode'' \<in> set (columns df)"
      by auto
    let ?fdf = "status_rows scalar df sc sv"
    have "''Mode'' \<in> set (columns ?fdf)" using cols by (simp add: columns_status_rows)
    from ctfum_values_Inr[OF this, where ts=ts and sv=sv and key=k and vs=ms and acc=acc and scalar=scalar] obtain acc1 where
      a1: "count_tickets_for_unique_modes_values scalar ts sv k ?fdf ms acc = Inr acc1"
      and s1: "\<forall>s n. map_of acc1 s = Some n \<longrightarrow>
        map_of acc s = Some n \<or>
        (\<exists>v\<in>set ms. s = status_key ts sv k v \<and> n = matches scalar ?fdf ''Mode'' v)"
      and dm1: "\<forall>s. map_of acc s \<noteq> None \<or> (\<exists>v\<in>set ms. s = status_key ts sv k v) \<longrightarrow>
        map_of acc1 s \<noteq> None"
      by blast
    from Cons.IH[OF prems', of acc1] obtain acc' where
      a: "count_tickets_for_unique_modes_keys scalar ts d ks ms sc sv acc1 = Inr acc'"
      and s: "\<forall>s n. map_of acc' s = Some n \<longrightarrow>
        map_of acc1 s = Some n \<or>
        (\<exists>k\<in>set ks. \<exists>df. \<exists>m\<in>set ms. map_of d k = Some df \<and>
            s = status_key ts sv k m \<and> n = matches scalar (status_rows scalar df sc sv) ''Mode'' m)"
      and dm: "\<forall>s. map_of acc1 s \<noteq> None \<or>
          (\<exists>k\<in>set ks. \<exists>m\<in>set ms. map_of d k \<noteq> None \<and> s = status_key ts sv k m) \<longrightarrow>
        map_of acc' s \<noteq> None"
      by blast
    have 1: "count_tickets_for_unique_modes_keys scalar ts d (k # ks) ms sc sv acc = Inr acc'"
      using a a1 Some cols by (simp add: get_column_def Let_def status_rows_def)
    have 2: "\<forall>s n. map_of acc' s = Some n \<longrightarrow>
        map_of acc s = Some n \<or>
        (\<exists>k\<in>set (k # ks). \<exists>df. \<exists>m\<in>set ms. map_of d k = Some df \<and>
            s = status_key ts sv k m \<and> n = matches scalar (status_rows scalar df sc sv) ''Mode'' m)"
    proof (intro allI impI)
      fix s n assume "map_of acc' s = Some n"
      with s have "map_of acc1 s = Some n \<or>
        (\<exists>k\<in>set ks. \<exists>df. \<exists>m\<in>set ms. map_of d k = Some df \<and>
            s = status_key ts sv k m \<and> n = matches scalar (status_rows scalar df sc sv) ''Mode'' m)"
        by blast
      then show "map_of acc s = Some n \<or>
        (\<exists>k\<in>set (k # ks). \<exists>df. \<exists>m\<in>set ms. map_of d k = Some df \<and>
            s = status_key ts sv k m \<and> n = matches scalar (status_rows scalar df sc sv) ''Mode'' m)"
      proof
        assume "map_of acc1 s = Some n"
        with s1 have "map_of acc s = Some n \<or>
          (\<exists>v\<in>set ms. s = status_key ts sv k v \<and> n = matches scalar ?fdf ''Mode'' v)" by blast
        then show ?thesis using Some by auto
      next
        assume "\<exists>k\<in>set ks. \<exists>df. \<exists>m\<in>set ms. map_of d k = Some df \<and>
            s = status_key ts sv k m \<and> n = matches scalar (status_rows scalar df sc sv) ''Mode'' m"
        then show ?thesis by auto
      qed
    qed
    have 3: "\<forall>s. map_of acc s \<noteq> None \<or>
          (\<exists>k\<in>set (k # ks). \<exists>m\<in>set ms. map_of d k \<noteq> None \<and> s = status_key ts sv k m) \<longrightarrow>
        map_of acc' s \<noteq> None"
    proof (intro allI impI)
      fix s assume "map_of acc s \<noteq> None \<or>
          (\<exists>k\<in>set (k # ks). \<exists>m\<in>set ms. map_of d k \<noteq> None \<and> s = status_key ts sv k m)"
      then have "map_of acc1 s \<noteq> None \<or>
          (\<exists>k\<in>set ks. \<exists>m\<in>set ms. map_of d k \<noteq> None \<and> s = status_key ts sv k m)"
        using dm1 by auto
      with dm show "map_of acc' s \<noteq> None" by blast
    qed
    from 1 2 3 show ?thesis by blast
  qed
qed

lemma sum_mode_counts_Inr:
  "''Mode'' \<in> set (columns fdf) \<Longrightarrow>
   sum_mode_counts scalar fdf ms acc = Inr (acc + sum_list (map (matches scalar fdf ''Mode'') ms))"
  by (induction ms arbitrary: acc)
     (simp_all add: get_column_def mask_sum_mask_eq matches_def)

lemma cbws_keys_Inr:
  assumes "\<forall>k\<in>set ks. \<forall>df. map_of d k = Some df \<longrightarrow>
             sc \<in> set (columns df) \<and> ''Mode'' \<in> set (columns df)"
  shows "\<exists>tot. count_bot_wise_status_tickets_keys scalar d ks ms sc sv acc = Inr tot \<and>
     (\<forall>k. map_of tot k =
        (case map_of d k of
           None \<Rightarrow> map_of acc k
         | Some df \<Rightarrow>
             if k \<in> set ks
             then Some (sum_list (map (matches scalar (status_rows scalar df sc sv) ''Mode'') ms))
             else map_of acc k))"
  using assms
proof (induction ks arbitrary: acc)
  case Nil
  then show ?case by (simp split: option.split)
next
  case (Cons k ks)
  have prems': "\<forall>k\<in>set ks. \<forall>df. map_of d k = Some df \<longrightarrow>
             sc \<in> set (columns df) \<and> ''Mode'' \<in> set (columns df)"
    using Cons.prems by simp
  show ?case
  proof (cases "map_of d k")
    case None
    from Cons.IH[OF prems', of acc] obtain tot where
      t: "count_bot_wise_status_tickets_keys scalar d ks ms sc sv acc = Inr tot"
      "\<forall>k. map_of tot k =
        (case map_of d k of
           None \<Rightarrow> map_of acc k
         | Some df \<Rightarrow>
             if k \<in> set ks
             then Some (sum_list (map (matches scalar (status_rows scalar df sc sv) ''Mode'') ms))
             else map_of acc k)"
      by blast
    then show ?thesis using None by (auto split: option.split)
  next
    case (Some df)
    with Cons.prems have cols: "sc \<in> set (columns df)" "''Mode'' \<in> set (columns df)"
      by auto
    let ?fdf = "status_rows scalar df sc sv"
    let ?n = "sum_list (map (matches scalar ?fdf ''Mode'') ms)"
    have m: "''Mode'' \<in> set (columns ?fdf)" using cols by (simp add: columns_status_rows)
    from Cons.IH[OF prems', of "AList.update k ?n acc"] obtain tot where
      t: "count_bot_wise_status_tickets_keys scalar d ks ms sc sv (AList.update k ?n acc) = Inr tot"
      "\<forall>k'. map_of tot k' =
        (case map_of d k' of
           None \<Rightarrow> map_of (AList.update k ?n acc) k'
         | Some df \<Rightarrow>
             if k' \<in> set ks
             then Some (sum_list (map (matches scalar (status_rows scalar df sc sv) ''Mode'') ms))
             else map_of (AList.update k ?n acc) k')"
      by blast
    have 1: "count_bot_wise_status_tickets_keys scalar d (k # ks) ms sc sv acc = Inr tot"
      using t(1) Some cols sum_mode_counts_Inr[OF m, where ms=ms and acc=0 and scalar=scalar]
      by (simp add: get_column_def Let_def status_rows_def)
    have 2: "\<forall>k'. map_of tot k' =
        (case map_of d k' of
           None \<Rightarrow> map_of acc k'
         | Some df \<Rightarrow>
             if k' \<in> set (k # ks)
             then Some (sum_list (map (matches scalar (status_rows scalar df sc sv) ''Mode'') ms))
             else map_of acc k')"
      using t(2) Some by (auto simp: update_conv' split: option.split)
    from 1 2 show ?thesis by blast
  qed
qed



text \<open>
  C4, as stated, fails. The mode list \<open>[b_c, c]\<close> is pairwise distinct and the key \<open>a\<close>
  is in the map. The per-bot total of \<open>a\<close> is 0, and the entries of
  \<open>count_tickets_for_unique_modes\<close> at the composite keys of (\<open>a\<close>, \<open>b_c\<close>) and
  (\<open>a\<close>, \<open>c\<close>) are 1 and 0: the first was overwritten by the count of (\<open>a_b\<close>, \<open>c\<close>).
\<close>

theorem bot_totals_mode_collision:
  "count_tickets_for_unique_modes text_stamp ts_iso underscore_dict [Str ''a'', Str ''a_b'']
     [Str ''b_c'', Str ''c''] ''Status'' (Str ''Closed'')
   = Inr [(''total_Closed_ticket_a_b_c'', 1), (''total_Closed_ticket_a_c'', 0),
          (''total_Closed_ticket_a_b_b_c'', 0)]
   \<and> status_key ts_iso (Str ''Closed'') (Str ''a'') (Str ''b_c'') = ''total_Closed_ticket_a_b_c''
   \<and> status_key ts_iso (Str ''Closed'') (Str ''a'') (Str ''c'') = ''total_Closed_ticket_a_c''
   \<and> count_bot_wise_status_tickets text_stamp underscore_dict [Str ''a'', Str ''a_b'']
       [Str ''b_c'', Str ''c''] ''Status'' (Str ''Closed'')
     = Inr [(Str ''a'', 0), (Str ''a_b'', 1)]"
  by (simp add: underscore_dict_def count_tickets_for_unique_modes_def
      count_bot_wise_status_tickets_def eval_defs)

lemma ctfum_result:
  assumes "\<forall>k\<in>set ks. \<forall>df. map_of d k = Some df \<longrightarrow>
             sc \<in> set (columns df) \<and> ''Mode'' \<in> set (columns df)"
  shows "\<exists>flat. count_tickets_for_unique_modes scalar ts d ks ms sc sv = Inr flat \<and>
     (\<forall>s n. map_of flat s = Some n \<longrightarrow>
        (\<exists>k\<in>set ks. \<exists>df. \<exists>m\<in>set ms. map_of d k = Some df \<and>
            s = status_key ts sv k m \<and> n = matches scalar (status_rows scalar df sc sv) ''Mode'' m)) \<and>
     (\<forall>k\<in>set ks. \<forall>m\<in>set ms. map_of d k \<noteq> None \<longrightarrow>
        map_of flat (status_key ts sv k m) \<noteq> None)"
proof -
  from ctfum_keys_Inr[OF assms, where ts=ts and ms=ms and sv=sv and acc="[]" and scalar=scalar]
  obtain flat where
    f: "count_tickets_for_unique_modes_keys scalar ts d ks ms sc sv [] = Inr flat"
    and s: "\<forall>s n. map_of flat s = Some n \<longrightarrow>
        map_of ([]::(string, int) dict) s = Some n \<or>
        (\<exists>k\<in>set ks. \<exists>df. \<exists>m\<in>set ms. map_of d k = Some df \<and>
            s = status_key ts sv k m \<and> n = matches scalar (status_rows scalar df sc sv) ''Mode'' m)"
    and dm: "\<forall>s. map_of ([]::(string, int) dict) s \<noteq> None \<or>
          (\<exists>k\<in>set ks. \<exists>m\<in>set ms. map_of d k \<noteq> None \<and> s = status_key ts sv k m) \<longrightarrow>
        map_of flat s \<noteq> None"
    by blast
  have "\<forall>s n. map_of flat s = Some n \<longrightarrow>
        (\<exists>k\<in>set ks. \<exists>df. \<exists>m\<in>set ms. map_of d k = Some df \<and>
            s = status_key ts sv k m \<and> n = matches scalar (status_rows scalar df sc sv) ''Mode'' m)"
    using s by simp
  moreover have "\<forall>k\<in>set ks. \<forall>m\<in>set ms. map_of d k \<noteq> None \<longrightarrow>
        map_of flat (status_key ts sv k m) \<noteq> None"
    using dm by blast
  ultimately show ?thesis
    using f unfolding count_tickets_for_unique_modes_def by blast
qed

lemma cbws_result:
  assumes "\<forall>k\<in>set ks. \<forall>df. map_of d k = Some df \<longrightarrow>
             sc \<in> set (columns df) \<and> ''Mode'' \<in> set (columns df)"
  shows "\<exists>tot. count_bot_wise_status_tickets scalar d ks ms sc sv = Inr tot \<and>
     (\<forall>k. map_of tot k =
        (case map_of d k of
           None \<Rightarrow> None
         | Some df \<Rightarrow>
             if k \<in> set ks
             then Some (sum_list (map (matches scalar (status_rows scalar df sc sv) ''Mode'') ms))
             else None))"
proof -
  from cbws_keys_Inr[OF assms, where ms=ms and sv=sv and acc="[]" and scalar=scalar] obtain tot where
    t: "count_bot_wise_status_tickets_keys scalar d ks ms sc sv [] = Inr tot"
    and tv: "\<forall>k. map_of tot k =
        (case map_of d k of
           None \<Rightarrow> map_of ([]::(cell, int) dict) k
         | Some df \<Rightarrow>
             if k \<in> set ks
             then Some (sum_list (map (matches scalar (status_rows scalar df sc sv) ''Mode'') ms))
             else map_of ([]::(cell, int) dict) k)"
    by blast
  have "\<forall>k. map_of tot k =
        (case map_of d k of
           None \<Rightarrow> None
         | Some df \<Rightarrow>
             if k \<in> set ks
             then Some (sum_list (map (matches scalar (status_rows scalar df sc sv) ''Mode'') ms))
             else None)"
    using tv by (auto split: option.split)
  with t show ?thesis
    unfolding count_bot_wise_status_tickets_def by blast
qed

text \<open>
  C4, amended. Let every listed key that is in the partition map have the status column
  and the column \<open>Mode\<close> in its record set (otherwise neither operation returns), and
  let no other requested combination share a composite key with a combination of the
  key. Then both operations return, every entry
  \<open>total_{status_value}_ticket_{key}_{mode}\<close> of the key is present, and the per-bot
  total of \<open>count_bot_wise_status_tickets\<close> for the key is the sum of these entries over
  the mode list.
\<close>

theorem bot_totals_sum_modes:
  assumes "key \<in> set keys" "map_of d key = Some df"
    and cols: "\<forall>k\<in>set keys. \<forall>f. map_of d k = Some f \<longrightarrow>
             status_column \<in> set (columns f) \<and> ''Mode'' \<in> set (columns f)"
    and inj: "\<forall>k'\<in>set keys. \<forall>m'\<in>set mode_list. \<forall>m\<in>set mode_list.
             status_key ts status_value k' m' = status_key ts status_value key m \<longrightarrow>
             k' = key \<and> m' = m"
  shows "\<exists>flat tot ns.
           count_tickets_for_unique_modes scalar ts d keys mode_list status_column status_value
             = Inr flat \<and>
           count_bot_wise_status_tickets scalar d keys mode_list status_column status_value
             = Inr tot \<and>
           map (\<lambda>m. map_of flat (status_key ts status_value key m)) mode_list = map Some ns \<and>
           map_of tot key = Some (sum_list ns)"
proof -
  let ?fdf = "status_rows scalar df status_column status_value"
  let ?ns = "map (matches scalar ?fdf ''Mode'') mode_list"
  from ctfum_result[OF cols, where ts=ts and ms=mode_list and sv=status_value and scalar=scalar] obtain flat where
    f: "count_tickets_for_unique_modes scalar ts d keys mode_list status_column status_value = Inr flat"
    and s: "\<forall>s n. map_of flat s = Some n \<longrightarrow>
        (\<exists>k\<in>set keys. \<exists>df. \<exists>m\<in>set mode_list. map_of d k = Some df \<and>
            s = status_key ts status_value k m \<and>
            n = matches scalar (status_rows scalar df status_column status_value) ''Mode'' m)"
    and dm: "\<forall>k\<in>set keys. \<forall>m\<in>set mode_list. map_of d k \<noteq> None \<longrightarrow>
        map_of flat (status_key ts status_value k m) \<noteq> None"
    by blast
  from cbws_result[OF cols, where ms=mode_list and sv=status_value and scalar=scalar] obtain tot where
    t: "count_bot_wise_status_tickets scalar d keys mode_list status_column status_value = Inr tot"
    and tv: "\<forall>k. map_of tot k =
        (case map_of d k of
           None \<Rightarrow> None
         | Some df \<Rightarrow>
             if k \<in> set keys
             then Some (sum_list (map (matches scalar (status_rows scalar df status_column status_value)
                                        ''Mode'') mode_list))
             else None)"
    by blast
  have entry: "map_of flat (status_key ts status_value key m) = Some (matches scalar ?fdf ''Mode'' m)"
    if m: "m \<in> set mode_list" for m
  proof -
    have "map_of flat (status_key ts status_value key m) \<noteq> None"
      using dm assms(1,2) m by simp
    then obtain n where n: "map_of flat (status_key ts status_value key m) = Some n" by blast
    from s n obtain k' df' m' where *: "k' \<in> set keys" "m' \<in> set mode_list"
        "map_of d k' = Some df'"
        "status_key ts status_value key m = status_key ts status_value k' m'"
        "n = matches scalar (status_rows scalar df' status_column status_value) ''Mode'' m'"
      by blast
    from inj * m have "k' = key" "m' = m" by auto
    with * assms(2) n show ?thesis by simp
  qed
  have 1: "map (\<lambda>m. map_of flat (status_key ts status_value key m)) mode_list = map Some ?ns"
    using entry by simp
  have 2: "map_of tot key = Some (sum_list ?ns)"
    using tv assms(1,2) by simp
  from f t 1 2 show ?thesis by blast
qed


text \<open>The amended C4 at bot \<open>A\<close>, modes \<open>Email\<close> and \<open>Phone\<close>, status \<open>Closed\<close>.\<close>

theorem bot_totals_sum_modes_witness:
  "\<exists>flat tot ns.
     count_tickets_for_unique_modes text_stamp ts_iso two_bot_dict [Str ''A'', Str ''B'']
       [Str ''Email'', Str ''Phone''] ''Status'' (Str ''Closed'') = Inr flat \<and>
     count_bot_wise_status_tickets text_stamp two_bot_dict [Str ''A'', Str ''B'']
       [Str ''Email'', Str ''Phone''] ''Status'' (Str ''Closed'') = Inr tot \<and>
     [map_of flat ''total_Closed_ticket_A_Email'', map_of flat ''total_Closed_ticket_A_Phone'']
       = map Some ns \<and>
     map_of tot (Str ''A'') = Some (sum_list ns)"
proof -
  have k: "Str ''A'' \<in> set [Str ''A'', Str ''B'']" by simp
  have p: "map_of two_bot_dict (Str ''A'') = Some closed_open_frame"
    by (simp add: two_bot_dict_def)
  have cols: "\<forall>k\<in>set [Str ''A'', Str ''B'']. \<forall>f. map_of two_bot_dict k = Some f \<longrightarrow>
             ''Status'' \<in> set (columns f) \<and> ''Mode'' \<in> set (columns f)"
    by (auto simp: two_bot_dict_def closed_open_frame_def)
  have inj: "\<forall>k'\<in>set [Str ''A'', Str ''B'']. \<forall>m'\<in>set [Str ''Email'', Str ''Phone''].
             \<forall>m\<in>set [Str ''Email'', Str ''Phone''].
             status_key ts_iso (Str ''Closed'') k' m' = status_key ts_iso (Str ''Closed'') (Str ''A'') m \<longrightarrow>
             k' = Str ''A'' \<and> m' = m"
    by (simp add: status_key_def)
  show ?thesis
    using bot_totals_sum_modes[OF k p cols inj, where scalar=text_stamp]
    by (simp add: status_key_def)
qed

section \<open>The time window\<close>




























section \<open>Partitioning by bot\<close>

lemma fold_update_map_of:
  "map_of (fold (\<lambda>k a. AList.update k (f k) a) ks acc) x
   = (if x \<in> set ks then Some (f x) else map_of acc x)"
  by (induction ks arbitrary: acc) (auto simp: update_conv')

lemma fold_update_keys:
  "distinct ks \<Longrightarrow> set ks \<inter> fst ` set acc = {} \<Longrightarrow>
   map fst (fold (\<lambda>k a. AList.update k (f k) a) ks acc) = map fst acc @ ks"
proof (induction ks arbitrary: acc)
  case Nil
  then show ?case by simp
next
  case (Cons k ks)
  have k: "k \<notin> fst ` set acc" using Cons.prems by auto
  have keys: "map fst (AList.update k (f k) acc) = map fst acc @ [k]"
    using k by (simp add: update_keys)
  have "set ks \<inter> fst ` set (AList.update k (f k) acc) = {}"
    using Cons.prems by (auto simp: dom_update)
  from Cons.IH[OF _ this] Cons.prems keys show ?case by simp
qed

lemma compares_equal_name:
  assumes "k \<noteq> NaN" "k \<noteq> NaT" "\<forall>y\<in>set s. \<forall>st. y \<noteq> Date st" "x \<in> set s"
  shows "compares_equal scalar s x k = (x = k)"
proof (cases "is_datetime64 s \<and> (\<exists>a. k = Str a)")
  case True
  then obtain a where a: "k = Str a" by blast
  from True have "is_datetime_cell x"
    using assms(4) by (simp add: is_datetime64_def list_all_iff)
  with assms(3,4) have x: "x = NaT" by (cases x) auto
  show ?thesis
    using True by (simp add: compares_equal_def scalar_for_def cell_eq_def a x
        split: option.split)
next
  case False
  then have "scalar_for scalar s k = k"
    by (auto simp: scalar_for_def split: cell.split)
  then show ?thesis
    using assms(1,2) by (simp add: compares_equal_def cell_eq_def)
qed

text \<open>
  C6, as stated, fails, in two ways. First: the column \<open>Bot Name\<close> of the record set is
  a datetime64 column with the one entry 2024-06-14, and the two distinct keys are the
  texts \<open>2024-06-14\<close> and \<open>2024-06-14 00:00:00\<close>. pandas reads each key as that
  timestamp, so the one row is in the record set of both entries. Second: the only row
  has no bot name (\<open>NaN\<close>) and the key list is \<open>[NaN]\<close>; a missing value equals
  nothing, so the row, whose bot-identity value is in the list, is in no entry.
\<close>

theorem split_dataframe_by_bot_name_overlap:
  "split_dataframe_by_bot_name text_stamp stamped_bot_frame
     [Str ''2024-06-14'', Str ''2024-06-14 00:00:00''] ''Bot Name''
   = Dict [(Str ''2024-06-14'', stamped_bot_frame),
           (Str ''2024-06-14 00:00:00'', stamped_bot_frame)]
   \<and> rows stamped_bot_frame
     = [[(''Bot Name'', Date (Naive, 1718323200000000000)), (''Mode'', Str ''Email'')]]
   \<and> split_dataframe_by_bot_name text_stamp
       \<lparr>columns = [''Bot Name'', ''Mode''],
        rows = [[(''Bot Name'', NaN), (''Mode'', Str ''Email'')]]\<rparr> [NaN] ''Bot Name''
     = Dict [(NaN, \<lparr>columns = [''Bot Name'', ''Mode''], rows = []\<rparr>)]"
  by (simp add: split_dataframe_by_bot_name_def stamped_bot_frame_def text_stamp_def
      eval_defs)

text \<open>
  C6, amended. Let the bot-identity column be a column of the record set that holds no
  timestamp, and let the keys be pairwise distinct and none of them a missing-value
  marker. Then \<open>split_dataframe_by_bot_name\<close> returns a dictionary with exactly one
  entry per key, in the order of the key list; the entry of a key holds, with the
  columns of the record set, the rows whose bot-identity cell is the key, in their
  order; every row whose bot-identity cell is one of the keys is in the record set of
  exactly one entry; and a row whose bot-identity cell is none of the keys is in no
  entry.
\<close>

theorem split_dataframe_by_bot_name_partition:
  assumes col: "bot_name_column \<in> set (columns R)"
    and K: "distinct K" "NaN \<notin> set K" "NaT \<notin> set K"
    and names: "\<forall>r\<in>set (rows R). \<forall>st. cell_at r bot_name_column \<noteq> Date st"
  shows "\<exists>d. split_dataframe_by_bot_name scalar R K bot_name_column = Dict d \<and>
     length d = length K \<and> map fst d = K \<and>
     (\<forall>k\<in>set K. \<exists>p. map_of d k = Some p \<and> columns p = columns R \<and>
         rows p = filter (\<lambda>r. cell_at r bot_name_column = k) (rows R)) \<and>
     (\<forall>r\<in>set (rows R).
        (cell_at r bot_name_column \<in> set K \<longrightarrow>
           (\<exists>!k. \<exists>p. map_of d k = Some p \<and> r \<in> set (rows p))) \<and>
        (cell_at r bot_name_column \<notin> set K \<longrightarrow>
           (\<forall>k p. map_of d k = Some p \<longrightarrow> r \<notin> set (rows p))))"
proof -
  let ?part = "\<lambda>bot. select_rows R (mask_eq scalar (series R bot_name_column) bot)"
  let ?d = "fold (\<lambda>bot acc. AList.update bot (?part bot) acc) K []"
  have ret: "split_dataframe_by_bot_name scalar R K bot_name_column = Dict ?d"
    using col by (simp add: split_dataframe_by_bot_name_def)
  have keys: "map fst ?d = K"
    using fold_update_keys[OF K(1), of "[]" ?part] by simp
  then have len: "length ?d = length K" by (metis length_map)
  have look: "map_of ?d k = (if k \<in> set K then Some (?part k) else None)" for k
    using fold_update_map_of[of ?part K "[]" k] by simp
  have rows_part: "rows (?part k) = filter (\<lambda>r. cell_at r bot_name_column = k) (rows R)"
    if "k \<in> set K" for k
  proof -
    from that K have k: "k \<noteq> NaN" "k \<noteq> NaT" by auto
    have s: "\<forall>y\<in>set (series R bot_name_column). \<forall>st. y \<noteq> Date st"
      using names by (auto simp: series_def)
    have "compares_equal scalar (series R bot_name_column) (cell_at r bot_name_column) k
          = (cell_at r bot_name_column = k)" if "r \<in> set (rows R)" for r
      using compares_equal_name[OF k s, of "cell_at r bot_name_column" scalar] that
      by (simp add: series_def)
    then show ?thesis
      by (simp add: rows_select_mask_eq cong: filter_cong)
  qed
  have parts: "\<forall>k\<in>set K. \<exists>p. map_of ?d k = Some p \<and> columns p = columns R \<and>
         rows p = filter (\<lambda>r. cell_at r bot_name_column = k) (rows R)"
    using look rows_part by (simp add: columns_select_rows)
  have cover: "\<forall>r\<in>set (rows R).
        (cell_at r bot_name_column \<in> set K \<longrightarrow>
           (\<exists>!k. \<exists>p. map_of ?d k = Some p \<and> r \<in> set (rows p))) \<and>
        (cell_at r bot_name_column \<notin> set K \<longrightarrow>
           (\<forall>k p. map_of ?d k = Some p \<longrightarrow> r \<notin> set (rows p)))"
  proof (intro ballI conjI impI)
    fix r assume r: "r \<in> set (rows R)" and inK: "cell_at r bot_name_column \<in> set K"
    show "\<exists>!k. \<exists>p. map_of ?d k = Some p \<and> r \<in> set (rows p)"
    proof (rule ex1I[of _ "cell_at r bot_name_column"])
      show "\<exists>p. map_of ?d (cell_at r bot_name_column) = Some p \<and> r \<in> set (rows p)"
        using look[of "cell_at r bot_name_column"] rows_part[OF inK] inK r by simp
    next
      fix k assume "\<exists>p. map_of ?d k = Some p \<and> r \<in> set (rows p)"
      then obtain p where p: "map_of ?d k = Some p" "r \<in> set (rows p)" by blast
      from p(1) look[of k] have kK: "k \<in> set K" and "p = ?part k"
        by (auto split: if_splits)
      with p(2) rows_part[OF kK] show "k = cell_at r bot_name_column" by simp
    qed
  next
    fix r assume r: "r \<in> set (rows R)" and notK: "cell_at r bot_name_column \<notin> set K"
    show "\<forall>k p. map_of ?d k = Some p \<longrightarrow> r \<notin> set (rows p)"
    proof (intro allI impI)
      fix k p assume p: "map_of ?d k = Some p"
      from p look[of k] have kK: "k \<in> set K" and "p = ?part k"
        by (auto split: if_splits)
      with rows_part[OF kK] notK show "r \<notin> set (rows p)" by auto
    qed
  qed
  from ret len keys parts cover show ?thesis by blast
qed

text \<open>The amended C6 on the two-ticket record set with the keys \<open>A\<close> and \<open>B\<close>.\<close>

theorem split_dataframe_by_bot_name_partition_witness:
  "split_dataframe_by_bot_name text_stamp closed_open_frame [Str ''A'', Str ''B''] ''Bot Name''
   = Dict [(Str ''A'', closed_open_frame),
           (Str ''B'', \<lparr>columns = [''Bot Name'', ''Mode'', ''Status''], rows = []\<rparr>)]
   \<and> (\<exists>d. split_dataframe_by_bot_name text_stamp closed_open_frame [Str ''A'', Str ''B''] ''Bot Name''
            = Dict d \<and> length d = 2 \<and> map fst d = [Str ''A'', Str ''B''])"
proof -
  have col: "''Bot Name'' \<in> set (columns closed_open_frame)"
    by (simp add: closed_open_frame_def)
  have K: "distinct [Str ''A'', Str ''B'']" "NaN \<notin> set [Str ''A'', Str ''B'']"
    "NaT \<notin> set [Str ''A'', Str ''B'']" by simp_all
  have names: "\<forall>r\<in>set (rows closed_open_frame). \<forall>st. cell_at r ''Bot Name'' \<noteq> Date st"
    by (simp add: closed_open_frame_def cell_at_def)
  have ev: "split_dataframe_by_bot_name text_stamp closed_open_frame [Str ''A'', Str ''B''] ''Bot Name''
   = Dict [(Str ''A'', closed_open_frame),
           (Str ''B'', \<lparr>columns = [''Bot Name'', ''Mode'', ''Status''], rows = []\<rparr>)]"
    by (simp add: split_dataframe_by_bot_name_def closed_open_frame_def eval_defs)
  from split_dataframe_by_bot_name_partition[OF col K names, where scalar=text_stamp]
  obtain d where
    "split_dataframe_by_bot_name text_stamp closed_open_frame [Str ''A'', Str ''B''] ''Bot Name'' = Dict d"
    "length d = length [Str ''A'', Str ''B'']" "map fst d = [Str ''A'', Str ''B'']"
    by (elim exE conjE) (rule that; assumption)
  with ev show ?thesis by simp
qed

text \<open>
  C7. On a record set without the column \<open>Bot Name\<close> the function does not return an
  empty partition map: it returns the pair of an empty dictionary and an empty list,
  and the caller's \<open>.keys()\<close> on that pair raises \<open>AttributeError\<close>.
\<close>

theorem split_dataframe_by_bot_name_missing_column:
  "split_dataframe_by_bot_name text_stamp
     \<lparr>columns = [''Mode'', ''Status''],
      rows = [[(''Mode'', Str ''Email''), (''Status'', Str ''Open'')]]\<rparr>
     [Str ''A''] ''Bot Name'' = Tuple [] []
   \<and> dict_of_split (Tuple [] []) = Inl AttributeError"
  by (simp add: split_dataframe_by_bot_name_def)

section \<open>Missing columns\<close>

text \<open>
  C5. The key \<open>A\<close> is in the map and its record set has no column \<open>Status\<close> and no
  column \<open>Problem Reported\<close>. \<open>count_tickets_for_unique_modes\<close> and
  \<open>count_bot_wise_status_tickets\<close> end in \<open>KeyError\<close>, and
  \<open>problem_reported_count_botwise\<close> ends in \<open>NameError\<close>; only
  \<open>total_ticket_received_count\<close> and \<open>total_ticket_received_count_modewise\<close> skip the key
  and return.
\<close>

theorem missing_column_raises:
  "count_tickets_for_unique_modes text_stamp ts_iso [(Str ''A'', no_status_frame)] [Str ''A'']
     [Str ''Email''] ''Status'' (Str ''Closed'') = Inl KeyError
   \<and> count_bot_wise_status_tickets text_stamp [(Str ''A'', no_status_frame)] [Str ''A'']
       [Str ''Email''] ''Status'' (Str ''Closed'') = Inl KeyError
   \<and> snd (problem_reported_count_botwise text_stamp grants_str [(Str ''A'', no_status_frame)] [Str ''A'']
            [Str ''Login Failure''] ''Problem Reported'') = Inl NameError
   \<and> total_ticket_received_count text_stamp ts_iso [(Str ''A'', no_status_frame)] [Str ''A'']
       [Str ''Closed''] ''Status'' = []
   \<and> total_ticket_received_count_modewise text_stamp [(Str ''A'', no_status_frame)] [Str ''A'']
       [Str ''Closed''] ''Status'' = Inr [(Str ''Closed'', [])]"
  by (simp add: count_tickets_for_unique_modes_def count_bot_wise_status_tickets_def
      problem_reported_count_botwise_def total_ticket_received_count_def
      total_ticket_received_count_modewise_def init_mode_counts_def
      no_status_frame_def get_column_def)


section \<open>Record sets rewritten in place\<close>




lemma lower_example: "py_strip (py_lower '' Login Failure '') = ''login failure''"
  by code_simp


end
